theory Spec2Isabelle
  imports Complex_Main "HOL-Library.AList"
begin

section \<open>The chat store (src/store.ts)\<close>

text \<open>
  The store of the extension keeps the channels, users and messages of the active chat
  provider in memory, merges updates into them and derives unread counts and labels.
  This theory embeds the methods of the class \<open>Store\<close> as functions over a record of
  its fields.

  Conventions of the embedding:
  \<^item> A JavaScript object used as a dictionary (\<open>users\<close>, \<open>messages\<close>, the messages of a
    channel, the replies of a message) is an association list of its own properties in
    the order of their insertion; a well-formed dictionary has no key twice.
    \<open>obj[k] = v\<close> on an own property is \<open>AList.update\<close> (in place, or appended) and
    \<open>{...a, ...b}\<close> is \<open>spread\<close>. The test \<open>k in obj\<close> and the read \<open>obj[k]\<close> also find
    the properties that a plain object inherits from \<open>Object.prototype\<close> (\<open>lookup\<close>). The
    numeric order that the runtime gives to keys that look like array indices is not
    modelled.
  \<^item> The assignment \<open>this.messages[channelId] = v\<close> with the channel id \<open>__proto__\<close> sets
    no own property: it makes \<open>v\<close> the prototype of the message store. The embedding
    lists \<open>v\<close> under that key, which is what the reads of \<open>this.messages["__proto__"]\<close>
    return from then on. The reads of other keys then find the properties of \<open>v\<close> as
    well, which are messages where the methods expect the messages of a channel; what
    the methods make of those is not modelled. The theorems that depend on a key being
    absent from the message store are stated for a message store with the prototype it
    was created with (\<open>plainMessages\<close>).
  \<^item> A field of the store that can be \<open>undefined\<close> is an \<open>option\<close>: \<open>channels\<close>, \<open>users\<close>,
    \<open>currentUserInfo\<close> and \<open>lastChannelId\<close> are read from the persistent state by the
    constructor, or reset to \<open>undefined\<close>. \<open>messages\<close> and \<open>currentUserPrefs\<close> are objects
    from the start; the store replaces \<open>currentUserPrefs\<close> only by the preferences that
    the provider returns.
  \<^item> A \<open>TypeError\<close> of the runtime (a property read on \<open>undefined\<close>) is the value
    \<open>Inl TypeError\<close>. A method that mutates the store and may throw afterwards returns
    the store it leaves behind together with the outcome.
  \<^item> Calls to the collaborators of the store (persistence, status item, tree views,
    webview, provider) are appended to the field \<open>effects\<close>, in call order. The
    collaborators are there when a method calls them: the tree views and the provider
    that \<open>initializeToken\<close> creates exist, and their methods return.
  \<^item> Counts (of unread messages, of reactions) are integers; the rounding of the number
    arithmetic of the runtime beyond \<open>2 ^ 53\<close> and the exponent notation of numbers from
    \<open>10 ^ 21\<close> on in a label are not modelled. Timestamps are compared as the runtime
    compares them, as binary64 numbers.
\<close>

subsection \<open>Dictionaries\<close>

type_synonym ('k, 'v) dict = "('k \<times> 'v) list"

definition has_key :: "'k \<Rightarrow> ('k, 'v) dict \<Rightarrow> bool" where
  "has_key k obj = (k \<in> set (map fst obj))"

definition keys :: "('k, 'v) dict \<Rightarrow> 'k list" where
  "keys obj = map fst obj"

definition dict_values :: "('k, 'v) dict \<Rightarrow> 'v list" where
  "dict_values obj = map snd obj"

definition spread :: "('k, 'v) dict \<Rightarrow> ('k, 'v) dict \<Rightarrow> ('k, 'v) dict" where
  "spread a b = fold (\<lambda>(k, v) acc. AList.update k v acc) b a"

text \<open>
  The dictionaries of the store are plain objects, and a plain object inherits the
  properties of \<open>Object.prototype\<close>. The test \<open>k in obj\<close> holds for an own key and for
  each of these names, and \<open>obj[k]\<close> then reads the own value or the inherited one: a
  built-in function, or for \<open>__proto__\<close> the prototype itself.
\<close>

definition objectPrototypeNames :: "string list" where
  "objectPrototypeNames =
    [''constructor'', ''__defineGetter__'', ''__defineSetter__'', ''hasOwnProperty'',
     ''__lookupGetter__'', ''__lookupSetter__'', ''isPrototypeOf'',
     ''propertyIsEnumerable'', ''toString'', ''valueOf'', ''__proto__'',
     ''toLocaleString'']"

datatype 'v slot = Missing | Inherited string | Own 'v

definition lookup :: "string \<Rightarrow> (string, 'v) dict \<Rightarrow> 'v slot" where
  "lookup k obj =
    (case map_of obj k of
       Some v \<Rightarrow> Own v
     | None \<Rightarrow> if k \<in> set objectPrototypeNames then Inherited k else Missing)"

text \<open>
  The assignment \<open>obj[k] = v\<close> to an object that the method has just built: it sets an
  own property, except that for the key \<open>__proto__\<close>, unless that is an own property
  already, it replaces the prototype and leaves the own properties as they are.
\<close>

definition assign :: "string \<Rightarrow> 'v \<Rightarrow> (string, 'v) dict \<Rightarrow> (string, 'v) dict" where
  "assign k v obj =
    (if k = ''__proto__'' \<and> map_of obj k = None then obj else AList.update k v obj)"






subsection \<open>Numbers read from strings\<close>

text \<open>
  The unary plus of \<open>+ts > +readTimestamp\<close> converts a string to a number. The string is
  read as a numeric literal: surrounding white space is dropped, the empty string
  is 0, a numeral is decimal (with sign, fraction and exponent, or \<open>Infinity\<close>) or has the
  prefix \<open>0x\<close>, \<open>0o\<close> or \<open>0b\<close>, and anything else is \<open>NaN\<close>. \<open>numericValue\<close> is the
  mathematical value of the literal, a rational; \<open>toNumber\<close> is the number of the runtime,
  that value rounded to the nearest binary64 number. A comparison with \<open>NaN\<close> is false.
\<close>

datatype number = NaN | NegInfinity | Finite rat | PosInfinity

fun number_gt :: "number \<Rightarrow> number \<Rightarrow> bool" where
  "number_gt NaN _ = False"
| "number_gt _ NaN = False"
| "number_gt (Finite a) (Finite b) = (a > b)"
| "number_gt PosInfinity PosInfinity = False"
| "number_gt PosInfinity _ = True"
| "number_gt _ PosInfinity = False"
| "number_gt NegInfinity _ = False"
| "number_gt _ NegInfinity = True"

definition isWhiteSpace :: "char \<Rightarrow> bool" where
  "isWhiteSpace c = (c = CHR '' '' \<or> c = CHR 0x09 \<or> c = CHR 0x0A \<or> c = CHR 0x0B
     \<or> c = CHR 0x0C \<or> c = CHR 0x0D \<or> c = CHR 0xA0)"

definition trim :: "string \<Rightarrow> string" where
  "trim s = rev (dropWhile isWhiteSpace (rev (dropWhile isWhiteSpace s)))"

definition digitTable :: "(char \<times> nat) list" where
  "digitTable =
    zip ''0123456789abcdef'' [0, 1, 2, 3, 4, 5, 6, 7, 8, 9, 10, 11, 12, 13, 14, 15]
    @ zip ''ABCDEF'' [10, 11, 12, 13, 14, 15]"

definition hexDigit :: "char \<Rightarrow> nat option" where
  "hexDigit c = map_of digitTable c"

definition digitIn :: "nat \<Rightarrow> char \<Rightarrow> nat option" where
  "digitIn base c =
    (case hexDigit c of None \<Rightarrow> None | Some d \<Rightarrow> if d < base then Some d else None)"

text \<open>The value of a non-empty string of digits of the base; \<open>None\<close> otherwise.\<close>

definition digitsValue :: "nat \<Rightarrow> string \<Rightarrow> nat option" where
  "digitsValue base s =
    (if s = [] then None
     else case those (map (digitIn base) s) of
            None \<Rightarrow> None
          | Some ds \<Rightarrow> Some (fold (\<lambda>d acc. acc * base + d) ds 0))"

definition isExponentMark :: "char \<Rightarrow> bool" where
  "isExponentMark c = (c = CHR ''e'' \<or> c = CHR ''E'')"

text \<open>An optional sign: the sign read (\<open>True\<close> for minus) and the rest.\<close>

fun stripSign :: "string \<Rightarrow> bool \<times> string" where
  "stripSign [] = (False, [])"
| "stripSign (c # cs) =
    (if c = CHR ''-'' then (True, cs) else if c = CHR ''+'' then (False, cs)
     else (False, c # cs))"

text \<open>The exponent part: absent (0), or a mark followed by a signed decimal integer.\<close>

definition exponentValue :: "string \<Rightarrow> int option" where
  "exponentValue s =
    (case s of
       [] \<Rightarrow> Some 0
     | _ # ds \<Rightarrow>
         (case stripSign ds of
            (neg, ds') \<Rightarrow>
              (case digitsValue 10 ds' of
                 None \<Rightarrow> None
               | Some n \<Rightarrow> Some (if neg then - int n else int n))))"

definition scale10 :: "int \<Rightarrow> rat" where
  "scale10 e = (if e \<ge> 0 then 10 ^ nat e else 1 / 10 ^ nat (- e))"

text \<open>An unsigned decimal literal: digits, an optional fraction, an optional exponent.\<close>

definition unsignedDecimal :: "string \<Rightarrow> rat option" where
  "unsignedDecimal s =
    (let mant = takeWhile (\<lambda>c. \<not> isExponentMark c) s;
         expo = dropWhile (\<lambda>c. \<not> isExponentMark c) s;
         ip = takeWhile (\<lambda>c. c \<noteq> CHR ''.'') mant;
         rest = dropWhile (\<lambda>c. c \<noteq> CHR ''.'') mant;
         fp = (case rest of [] \<Rightarrow> [] | _ # ds \<Rightarrow> ds)
     in if ip = [] \<and> fp = [] then None
        else case (if ip = [] then Some 0 else digitsValue 10 ip,
                   if fp = [] then Some 0 else digitsValue 10 fp,
                   exponentValue expo) of
               (Some i, Some f, Some e) \<Rightarrow>
                 Some ((of_nat i + of_nat f * scale10 (- int (length fp))) * scale10 e)
             | _ \<Rightarrow> None)"

definition signedDecimal :: "string \<Rightarrow> number" where
  "signedDecimal s =
    (case stripSign s of
       (neg, body) \<Rightarrow>
         if body = ''Infinity'' then (if neg then NegInfinity else PosInfinity)
         else case unsignedDecimal body of
                None \<Rightarrow> NaN
              | Some q \<Rightarrow> Finite (if neg then - q else q))"

definition radixLiteral :: "nat \<Rightarrow> string \<Rightarrow> number" where
  "radixLiteral base ds =
    (case digitsValue base ds of None \<Rightarrow> NaN | Some n \<Rightarrow> Finite (of_nat n))"

definition numericValue :: "string \<Rightarrow> number" where
  "numericValue str =
    (case trim str of
       [] \<Rightarrow> Finite 0
     | [c] \<Rightarrow> signedDecimal [c]
     | c # d # ds \<Rightarrow>
         if c = CHR ''0'' \<and> (d = CHR ''x'' \<or> d = CHR ''X'') then radixLiteral 16 ds
         else if c = CHR ''0'' \<and> (d = CHR ''o'' \<or> d = CHR ''O'') then radixLiteral 8 ds
         else if c = CHR ''0'' \<and> (d = CHR ''b'' \<or> d = CHR ''B'') then radixLiteral 2 ds
         else signedDecimal (c # d # ds))"

text \<open>
  Rounding to binary64: a number other than 0 lies between two neighbouring powers of
  two, \<open>2 ^ e \<le> a < 2 ^ (e + 1)\<close>; the binary64 numbers there are the multiples of
  \<open>2 ^ (e - 52)\<close>, and below \<open>2 ^ (- 1022)\<close> the multiples of \<open>2 ^ (- 1074)\<close>. The nearest
  multiple is taken, the even one of two equally near, and a result of \<open>2 ^ 1024\<close> or
  more is infinite. The two zeros of binary64 are one number here: they compare as equal.
\<close>

fun bitLength :: "nat \<Rightarrow> nat" where
  "bitLength n = (if n = 0 then 0 else Suc (bitLength (n div 2)))"

declare bitLength.simps [simp del]

definition pow2 :: "int \<Rightarrow> rat" where
  "pow2 i = (if i \<ge> 0 then 2 ^ nat i else 1 / 2 ^ nat (- i))"

text \<open>The exponent \<open>e\<close> with \<open>2 ^ e \<le> a < 2 ^ (e + 1)\<close>, for a positive \<open>a\<close>.\<close>

definition binaryExponent :: "rat \<Rightarrow> int" where
  "binaryExponent a =
    (if a \<ge> 1 then int (bitLength (nat \<lfloor>a\<rfloor>)) - 1
     else (let k = int (bitLength (nat \<lfloor>1 / a\<rfloor>)) - 1
           in if a = pow2 (- k) then - k else - k - 1))"

definition roundHalfEven :: "rat \<Rightarrow> int" where
  "roundHalfEven x =
    (let f = \<lfloor>x\<rfloor>; d = x - of_int f
     in if d < 1 / 2 then f
        else if d > 1 / 2 then f + 1
        else if even f then f else f + 1)"

definition roundMagnitude :: "rat \<Rightarrow> rat" where
  "roundMagnitude a =
    (let q = pow2 (max (binaryExponent a) (- 1022) - 52)
     in of_int (roundHalfEven (a / q)) * q)"

definition toBinary64 :: "rat \<Rightarrow> number" where
  "toBinary64 x =
    (if x = 0 then Finite 0
     else let r = roundMagnitude \<bar>x\<bar>
          in if r \<ge> pow2 1024 then (if x < 0 then NegInfinity else PosInfinity)
             else Finite (if x < 0 then - r else r))"

definition toNumber :: "string \<Rightarrow> number" where
  "toNumber str =
    (case numericValue str of
       Finite x \<Rightarrow> toBinary64 x
     | v \<Rightarrow> v)"

subsection \<open>Numbers written as strings\<close>

text \<open>The decimal numeral of an integer, as a template literal prints it.\<close>

definition digitChar :: "nat \<Rightarrow> char" where
  "digitChar d = ''0123456789'' ! (d mod 10)"

fun showNat :: "nat \<Rightarrow> string" where
  "showNat n = (if n < 10 then [digitChar n] else showNat (n div 10) @ [digitChar (n mod 10)])"

declare showNat.simps [simp del]

definition showInt :: "int \<Rightarrow> string" where
  "showInt i = (if i < 0 then CHR ''-'' # showNat (nat (- i)) else showNat (nat i))"

subsection \<open>The data model\<close>

text \<open>
  Modelled from the spec: the interfaces \<open>Channel\<close>, \<open>User\<close>, \<open>Message\<close>, \<open>MessageReply\<close>,
  \<open>CurrentUser\<close>, \<open>Team\<close>, \<open>UserPreferences\<close> and \<open>ChannelLabel\<close> of src/interfaces.ts,
  which is not among the sources at hand. The records have the fields that the data
  model of the specification lists and that the store reads or writes.
\<close>

text \<open>
  An optional property of an object that is spread over another one has three states:
  the property is absent, it is present and \<open>undefined\<close>, or it has a value. A read
  gives \<open>undefined\<close> in the first two; a spread copies the last two.
\<close>

datatype 'a field = Absent | Undefined | Defined 'a

definition spread_field :: "'a field \<Rightarrow> 'a field \<Rightarrow> 'a field" where
  "spread_field old new = (case new of Absent \<Rightarrow> old | _ \<Rightarrow> new)"

datatype error = TypeError

datatype ChannelType = channel | group | im

record Channel =
  ch_id :: string
  ch_name :: string
  ch_type :: ChannelType
  readTimestamp :: "string field"
  unreadCount :: "int field"

record User =
  u_id :: string
  u_name :: string
  isOnline :: "bool option"

record Reaction =
  r_name :: string
  r_count :: int
  userIds :: "string list"

record MessageReply =
  reply_timestamp :: string
  reply_userId :: string
  reply_content :: string

text \<open>
  Every property of a message can be \<open>undefined\<close>: the store itself builds messages that
  have nothing but replies (see \<open>updateMessageReply\<close>).
\<close>

record Message =
  timestamp :: "string option"
  userId :: "string option"
  content :: "string option"
  reactions :: "Reaction list option"
  replies :: "(string, MessageReply) dict option"

record CurrentUser =
  cu_id :: "string option"
  cu_name :: "string option"
  cu_provider :: "string option"
  currentTeamId :: "string option"

record Team =
  team_id :: string
  team_name :: string

record UserPreferences =
  mutedChannels :: "string list option"

record ChannelLabel =
  lbl_channel :: Channel
  unread :: int
  label :: string
  lbl_isOnline :: "bool option"

type_synonym Users = "(string, User) dict"
type_synonym ChannelMessages = "(string, Message) dict"
type_synonym Messages = "(string, ChannelMessages) dict"

text \<open>The keys of the persistent state and the values stored under them.\<close>

datatype stateKey = LAST_CHANNEL_ID | CHANNELS | USER_INFO | USERS

datatype stored =
  StoredChannelId "string option"
| StoredChannels "Channel list"
| StoredUserInfo "CurrentUser option"
| StoredUsers Users

text \<open>The calls the store makes to its collaborators.\<close>

datatype effect =
  GlobalStateUpdate stateKey stored
| StatusUpdateCount int
| TreeProvidersUpdate "ChannelLabel list"
| UsersTreeUpdateData "CurrentUser option" Users "(string, Channel) dict"
| SendToWebview "ChannelMessages slot" "Users option" "CurrentUser option" "Channel option"
| ProviderFetchUsers
| ProviderFetchChannels "Users option"
| ProviderFetchUserInfo "string option"

record Store =
  lastChannelId :: "string option"
  channels :: "Channel list option"
  channelsFetchedAt :: "int option"
  currentUserInfo :: "CurrentUser option"
  currentUserPrefs :: UserPreferences
  users :: "Users option"
  usersFetchedAt :: "int option"
  messages :: Messages
  effects :: "effect list"

definition STORAGE_SIZE_LIMIT :: nat where
  "STORAGE_SIZE_LIMIT = 100"

definition emit :: "effect \<Rightarrow> Store \<Rightarrow> Store" where
  "emit e st = st\<lparr>effects := effects st @ [e]\<rparr>"

subsection \<open>Exceptions in callbacks\<close>

fun mapE :: "('a \<Rightarrow> error + 'b) \<Rightarrow> 'a list \<Rightarrow> error + 'b list" where
  "mapE f [] = Inr []"
| "mapE f (x # xs) =
    (case f x of
       Inl e \<Rightarrow> Inl e
     | Inr y \<Rightarrow> (case mapE f xs of Inl e \<Rightarrow> Inl e | Inr ys \<Rightarrow> Inr (y # ys)))"

fun filterE :: "('a \<Rightarrow> error + bool) \<Rightarrow> 'a list \<Rightarrow> error + 'a list" where
  "filterE p [] = Inr []"
| "filterE p (x # xs) =
    (case p x of
       Inl e \<Rightarrow> Inl e
     | Inr b \<Rightarrow>
         (case filterE p xs of
            Inl e \<Rightarrow> Inl e
          | Inr ys \<Rightarrow> Inr (if b then x # ys else ys)))"

text \<open>Sequencing of two statements: the second one runs unless the first one threw.\<close>

definition and_then ::
  "(error + unit) \<times> Store \<Rightarrow> (Store \<Rightarrow> (error + unit) \<times> Store) \<Rightarrow> (error + unit) \<times> Store"
where
  "and_then r f = (case r of (Inl e, st) \<Rightarrow> (Inl e, st) | (Inr _, st) \<Rightarrow> f st)"

subsection \<open>Derived views\<close>

definition isAuthenticated :: "Store \<Rightarrow> bool" where
  "isAuthenticated st =
    (case currentUserInfo st of
       None \<Rightarrow> False
     | Some cu \<Rightarrow> (case cu_id cu of None \<Rightarrow> False | Some i \<Rightarrow> i \<noteq> []))"

definition getChannel :: "Store \<Rightarrow> string option \<Rightarrow> error + Channel option" where
  "getChannel st channelId =
    (case channels st of
       None \<Rightarrow> Inl TypeError
     | Some cs \<Rightarrow> Inr (find (\<lambda>ch. Some (ch_id ch) = channelId) cs))"

definition isChannelMuted :: "Store \<Rightarrow> string \<Rightarrow> bool" where
  "isChannelMuted st channelId =
    (case mutedChannels (currentUserPrefs st) of
       None \<Rightarrow> False
     | Some muted \<Rightarrow> channelId \<in> set muted)"

text \<open>The truthiness of an optional string and of an optional number.\<close>

definition truthyString :: "string field \<Rightarrow> string option" where
  "truthyString f = (case f of Defined s \<Rightarrow> (if s = [] then None else Some s) | _ \<Rightarrow> None)"

definition truthyNumber :: "int field \<Rightarrow> int option" where
  "truthyNumber f = (case f of Defined n \<Rightarrow> (if n = 0 then None else Some n) | _ \<Rightarrow> None)"

text \<open>
  The own entries of \<open>this.messages[channelId]\<close>. Under a name that is inherited and not
  own there is a built-in value: it has no enumerable property, so \<open>Object.keys\<close> of it
  and a spread of it are empty, as they are for \<open>undefined\<close> in a spread.
\<close>

definition channelMessages :: "Store \<Rightarrow> string \<Rightarrow> ChannelMessages" where
  "channelMessages st i = (case map_of (messages st) i of Some ms \<Rightarrow> ms | None \<Rightarrow> [])"

text \<open>
  The message store has the prototype it was created with: nothing has been assigned
  to it under \<open>__proto__\<close>.
\<close>

definition plainMessages :: "Store \<Rightarrow> bool" where
  "plainMessages st = (map_of (messages st) ''__proto__'' = None)"

text \<open>
  The callback of the filter in \<open>getUnreadCount\<close>: it reads \<open>messages[ts].userId\<close> and
  \<open>this.currentUserInfo.id\<close> first, then compares the timestamps.
\<close>

definition isUnread :: "Store \<Rightarrow> Channel \<Rightarrow> ChannelMessages \<Rightarrow> string \<Rightarrow> error + bool" where
  "isUnread st ch msgs ts =
    (case map_of msgs ts of
       None \<Rightarrow> Inl TypeError
     | Some m \<Rightarrow>
         (case currentUserInfo st of
            None \<Rightarrow> Inl TypeError
          | Some cu \<Rightarrow>
              (let isDifferentUser = (userId m \<noteq> cu_id cu);
                   isNewTimestamp =
                     (case truthyString (readTimestamp ch) of
                        Some rts \<Rightarrow> number_gt (toNumber ts) (toNumber rts)
                      | None \<Rightarrow> False)
               in Inr (isDifferentUser \<and> isNewTimestamp))))"

definition getUnreadCount :: "Store \<Rightarrow> Channel \<Rightarrow> error + int" where
  "getUnreadCount st ch =
    (if isChannelMuted st (ch_id ch) then Inr 0
     else
       (let msgs = channelMessages st (ch_id ch) in
        case filterE (isUnread st ch msgs) (keys msgs) of
          Inl e \<Rightarrow> Inl e
        | Inr unreadMessages \<Rightarrow>
            Inr (case truthyNumber (unreadCount ch) of
                   Some n \<Rightarrow> n
                 | None \<Rightarrow> int (length unreadMessages))))"

definition relatedUserId :: "Store \<Rightarrow> string \<Rightarrow> error + string option" where
  "relatedUserId st nm =
    (case users st of
       None \<Rightarrow> Inl TypeError
     | Some us \<Rightarrow>
         Inr (find (\<lambda>uid. case map_of us uid of
                            None \<Rightarrow> False
                          | Some u \<Rightarrow> CHR ''@'' # u_name u = nm \<or> u_name u = nm)
                (keys us)))"

definition relatedOnline :: "Store \<Rightarrow> Channel \<Rightarrow> error + bool option" where
  "relatedOnline st ch =
    (if ch_type ch = im then
       (case relatedUserId st (ch_name ch) of
          Inl e \<Rightarrow> Inl e
        | Inr None \<Rightarrow> Inr (Some False)
        | Inr (Some uid) \<Rightarrow>
            if uid = [] then Inr (Some False)
            else (case users st of
                    None \<Rightarrow> Inl TypeError
                  | Some us \<Rightarrow>
                      (case map_of us uid of
                         None \<Rightarrow> Inl TypeError
                       | Some u \<Rightarrow> Inr (isOnline u))))
     else Inr (Some False))"

definition channelLabel :: "Store \<Rightarrow> Channel \<Rightarrow> error + ChannelLabel" where
  "channelLabel st ch =
    (case getUnreadCount st ch of
       Inl e \<Rightarrow> Inl e
     | Inr n \<Rightarrow>
         (let isMuted = isChannelMuted st (ch_id ch) in
          case relatedOnline st ch of
            Inl e \<Rightarrow> Inl e
          | Inr online \<Rightarrow>
              (let lbl =
                 (if n > 0 then ch_name ch @ '' '' @ (''('' @ showInt n @ '' new)'')
                  else if isMuted then ch_name ch @ '' (muted)''
                  else ch_name ch)
               in Inr \<lparr>lbl_channel = ch, unread = n, label = lbl, lbl_isOnline = online\<rparr>)))"

definition getChannelLabels :: "Store \<Rightarrow> error + ChannelLabel list" where
  "getChannelLabels st =
    (case channels st of
       None \<Rightarrow> Inl TypeError
     | Some cs \<Rightarrow> mapE (channelLabel st) cs)"

definition getIMChannel :: "Channel list \<Rightarrow> User \<Rightarrow> Channel option" where
  "getIMChannel cs u =
    find (\<lambda>ch. ch_name ch = CHR ''@'' # u_name u \<or> ch_name ch = u_name u) cs"

definition imChannels :: "Channel list \<Rightarrow> Users \<Rightarrow> (string, Channel) dict" where
  "imChannels cs us =
    fold (\<lambda>uid acc.
            case map_of us uid of
              None \<Rightarrow> acc
            | Some u \<Rightarrow>
                (case getIMChannel cs u of
                   None \<Rightarrow> acc
                 | Some c \<Rightarrow> assign uid c acc))
      (keys us) []"

definition updateTreeViews :: "Store \<Rightarrow> (error + unit) \<times> Store" where
  "updateTreeViews st =
    (if isAuthenticated st then
       (case channels st of
          None \<Rightarrow> (Inl TypeError, st)
        | Some cs \<Rightarrow>
            (case getChannelLabels st of
               Inl e \<Rightarrow> (Inl e, st)
             | Inr labels \<Rightarrow>
                 (let st1 = emit (TreeProvidersUpdate labels) st in
                  case users st of
                    None \<Rightarrow> (Inl TypeError, st1)
                  | Some us \<Rightarrow>
                      (Inr (),
                       emit (UsersTreeUpdateData (currentUserInfo st) us (imChannels cs us))
                         st1))))
     else (Inr (), st))"

definition updateUnreadCount :: "Store \<Rightarrow> (error + unit) \<times> Store" where
  "updateUnreadCount st =
    (case channels st of
       None \<Rightarrow> (Inl TypeError, st)
     | Some cs \<Rightarrow>
         (case mapE (getUnreadCount st) cs of
            Inl e \<Rightarrow> (Inl e, st)
          | Inr unreads \<Rightarrow> (Inr (), emit (StatusUpdateCount (fold (\<lambda>b a. a + b) unreads 0)) st)))"

definition lastChannelKey :: "Store \<Rightarrow> string" where
  "lastChannelKey st = (case lastChannelId st of None \<Rightarrow> ''undefined'' | Some i \<Rightarrow> i)"

definition updateWebviewUI :: "Store \<Rightarrow> (error + unit) \<times> Store" where
  "updateWebviewUI st =
    (case getChannel st (lastChannelId st) of
       Inl e \<Rightarrow> (Inl e, st)
     | Inr ch \<Rightarrow>
         (let shown =
            (case lookup (lastChannelKey st) (messages st) of
               Missing \<Rightarrow> Own []
             | found \<Rightarrow> found)
          in (Inr (),
              emit (SendToWebview shown (users st) (currentUserInfo st) ch) st)))"

definition updateAllUI :: "Store \<Rightarrow> (error + unit) \<times> Store" where
  "updateAllUI st =
    and_then (and_then (updateUnreadCount st) updateTreeViews) updateWebviewUI"

subsection \<open>Replacing the collections\<close>

definition updateUsers :: "Store \<Rightarrow> Users \<Rightarrow> Store" where
  "updateUsers st us =
    (let st1 = st\<lparr>users := Some us\<rparr> in
     if length (keys us) \<le> STORAGE_SIZE_LIMIT
     then emit (GlobalStateUpdate USERS (StoredUsers us)) st1
     else st1)"

definition updateChannels :: "Store \<Rightarrow> Channel list \<Rightarrow> Store" where
  "updateChannels st cs =
    (let st1 = st\<lparr>channels := Some cs\<rparr> in
     if length cs \<le> STORAGE_SIZE_LIMIT
     then emit (GlobalStateUpdate CHANNELS (StoredChannels cs)) st1
     else st1)"

definition updateLastChannelId :: "Store \<Rightarrow> string option \<Rightarrow> Store" where
  "updateLastChannelId st channelId =
    (let st1 = st\<lparr>lastChannelId := channelId\<rparr> in
     emit (GlobalStateUpdate LAST_CHANNEL_ID (StoredChannelId (lastChannelId st1))) st1)"

text \<open>\<open>{...channel, ...newChannel}\<close>: the properties of the new channel win.\<close>

definition spreadChannel :: "Channel \<Rightarrow> Channel \<Rightarrow> Channel" where
  "spreadChannel old new =
    \<lparr>ch_id = ch_id new, ch_name = ch_name new, ch_type = ch_type new,
     readTimestamp = spread_field (readTimestamp old) (readTimestamp new),
     unreadCount = spread_field (unreadCount old) (unreadCount new)\<rparr>"

definition updateChannel :: "Store \<Rightarrow> Channel \<Rightarrow> (error + unit) \<times> Store" where
  "updateChannel st newChannel =
    (case channels st of
       None \<Rightarrow> (Inl TypeError, st)
     | Some cs \<Rightarrow>
         (let found = (ch_id newChannel \<in> set (map ch_id cs));
              updatedChannels =
                map (\<lambda>ch. if ch_id ch = ch_id newChannel then spreadChannel ch newChannel
                          else ch) cs;
              updatedChannels' =
                (if \<not> found then updatedChannels @ [newChannel] else updatedChannels)
          in updateTreeViews (updateChannels st updatedChannels')))"

subsection \<open>The current user\<close>

definition truthy :: "string option \<Rightarrow> bool" where
  "truthy v = (case v of None \<Rightarrow> False | Some s \<Rightarrow> s \<noteq> [])"

definition updateCurrentUser :: "Store \<Rightarrow> CurrentUser option \<Rightarrow> Store" where
  "updateCurrentUser st userInfo =
    (let st1 =
       (case userInfo of
          None \<Rightarrow> st\<lparr>currentUserInfo := None\<rparr>
        | Some ui \<Rightarrow>
            (let teamId0 =
                   (case currentUserInfo st of
                      Some cu \<Rightarrow> currentTeamId cu
                    | None \<Rightarrow> None);
                 teamId = (if truthy (currentTeamId ui) then currentTeamId ui else teamId0)
             in st\<lparr>currentUserInfo := Some (ui\<lparr>currentTeamId := teamId\<rparr>)\<rparr>))
     in emit (GlobalStateUpdate USER_INFO (StoredUserInfo (currentUserInfo st1))) st1)"

definition updateCurrentWorkspace :: "Store \<Rightarrow> Team \<Rightarrow> Store" where
  "updateCurrentWorkspace st team =
    (let newCurrentUser =
       (case currentUserInfo st of
          None \<Rightarrow>
            \<lparr>cu_id = None, cu_name = None, cu_provider = None,
             currentTeamId = Some (team_id team)\<rparr>
        | Some cu \<Rightarrow> cu\<lparr>currentTeamId := Some (team_id team)\<rparr>)
     in updateCurrentUser st (Some newCurrentUser))"

subsection \<open>Merging messages\<close>

text \<open>The elements of a list in the order of a JavaScript \<open>Set\<close> built from it.\<close>

definition setOf :: "'a list \<Rightarrow> 'a list" where
  "setOf xs = rev (remdups (rev xs))"

text \<open>
  Modelled from the spec: \<open>isSuperset\<close> and \<open>difference\<close> of src/utils.ts, which is not
  part of the sources at hand. The spec calls for \<open>fillUpUsers\<close> with exactly the
  referenced user ids that are missing from the user cache, when there is one.
\<close>

definition isSuperset :: "'a list \<Rightarrow> 'a list \<Rightarrow> bool" where
  "isSuperset s sub = (set sub \<subseteq> set s)"

definition difference :: "'a list \<Rightarrow> 'a list \<Rightarrow> 'a list" where
  "difference a b = filter (\<lambda>x. x \<notin> set b) a"

text \<open>
  \<open>fillUpUsers\<close> asks the provider for each missing user at once. The answers arrive
  after the method has returned and are not part of this step.
\<close>

definition fillUpUsers :: "Store \<Rightarrow> string option list \<Rightarrow> Store" where
  "fillUpUsers st missingIds = fold (\<lambda>uid acc. emit (ProviderFetchUserInfo uid) acc) missingIds st"

text \<open>
  An incoming mapping binds a timestamp to a message or to \<open>undefined\<close> (\<open>None\<close>), the
  mark of a deleted message. The new mapping is spread over the stored one; the loop
  that deletes every key whose value is \<open>undefined\<close> leaves the entries that are defined.
\<close>

definition mergeMessages ::
  "ChannelMessages \<Rightarrow> (string, Message option) dict \<Rightarrow> ChannelMessages" where
  "mergeMessages old newMessages =
    (let merged = spread (map (\<lambda>(k, m). (k, Some m)) old) newMessages
     in List.map_filter (\<lambda>(k, v). map_option (Pair k) v) merged)"

text \<open>
  After the merge the user ids of the messages are collected (\<open>undefined\<close> for a message
  without one) and compared with \<open>Object.keys(this.users)\<close>, which throws when the user
  directory is \<open>undefined\<close>; the message store has its new value by then.
\<close>

definition updateMessages ::
  "Store \<Rightarrow> string \<Rightarrow> (string, Message option) dict \<Rightarrow> (error + unit) \<times> Store" where
  "updateMessages st channelId newMessages =
    (let st1 = st\<lparr>messages :=
                   AList.update channelId
                     (mergeMessages (channelMessages st channelId) newMessages)
                     (messages st)\<rparr>;
         ids = setOf (map userId (dict_values (channelMessages st1 channelId)))
     in case users st1 of
          None \<Rightarrow> (Inl TypeError, st1)
        | Some us \<Rightarrow>
            (let allIds = map Some (setOf (keys us));
                 st2 = (if \<not> isSuperset allIds ids
                        then fillUpUsers st1 (difference ids allIds)
                        else st1)
             in updateAllUI st2))"

subsection \<open>Reactions and replies\<close>










subsection \<open>Cached reads\<close>

definition FETCH_THRESHOLD :: int where
  "FETCH_THRESHOLD = 15 * 60 * 1000"

text \<open>Dates are milliseconds since the epoch; \<open>now\<close> is the clock at the call.\<close>

definition shouldFetchNew :: "int option \<Rightarrow> int \<Rightarrow> bool" where
  "shouldFetchNew lastFetchedAt now =
    (case lastFetchedAt of
       None \<Rightarrow> True
     | Some t \<Rightarrow> now - t > FETCH_THRESHOLD)"

text \<open>
  \<open>fetchUsers\<close> and \<open>fetchChannels\<close> start a round trip to the provider and return its
  promise; the callbacks that store the answer run after the caller has its promise.
\<close>

definition fetchUsers :: "Store \<Rightarrow> Store" where
  "fetchUsers st = emit ProviderFetchUsers st"

definition fetchChannels :: "Store \<Rightarrow> Store" where
  "fetchChannels st = emit (ProviderFetchChannels (users st)) st"

text \<open>
  What a caller of \<open>getUsersPromise\<close> or \<open>getChannelsPromise\<close> holds: a promise already
  resolved with a value, or the promise of the fetch.
\<close>

datatype 'a promised = ResolvedWith 'a | FetchPromise

definition getUsersPromise :: "Store \<Rightarrow> int \<Rightarrow> (error + Users promised) \<times> Store" where
  "getUsersPromise st now =
    (case users st of
       None \<Rightarrow> (Inl TypeError, st)
     | Some us \<Rightarrow>
         if length (keys us) \<noteq> 0
         then (Inr (ResolvedWith us),
               if shouldFetchNew (usersFetchedAt st) now then fetchUsers st else st)
         else (Inr FetchPromise, fetchUsers st))"

definition getChannelsPromise :: "Store \<Rightarrow> int \<Rightarrow> Channel list promised \<times> Store" where
  "getChannelsPromise st now =
    (case channels st of
       Some cs \<Rightarrow>
         (ResolvedWith cs,
          if shouldFetchNew (channelsFetchedAt st) now then fetchChannels st else st)
     | None \<Rightarrow> (FetchPromise, fetchChannels st))"

subsection \<open>The unread count as the specification words it\<close>




definition currentUserId :: "Store \<Rightarrow> string option" where
  "currentUserId st = (case currentUserInfo st of None \<Rightarrow> None | Some cu \<Rightarrow> cu_id cu)"




text \<open>
  What the code counts instead: the messages whose timestamp, as the number that the
  unary plus makes of it, is greater than the number made of a non-empty read timestamp.
\<close>

definition newerAsNumber :: "Channel \<Rightarrow> string \<Rightarrow> bool" where
  "newerAsNumber ch ts =
    (case truthyString (readTimestamp ch) of
       None \<Rightarrow> False
     | Some rts \<Rightarrow> number_gt (toNumber ts) (toNumber rts))"



subsection \<open>The scenario of the specification\<close>

text \<open>
  The channel \<open>general\<close> with neither read timestamp nor reported unread count, the
  current user \<open>U1\<close>, and one message of the user \<open>U2\<close> at timestamp \<open>100\<close>, to which
  the user \<open>U3\<close> has reacted.
\<close>

definition scenarioChannel :: Channel where
  "scenarioChannel =
    \<lparr>ch_id = ''C1'', ch_name = ''general'', ch_type = channel,
     readTimestamp = Absent, unreadCount = Absent\<rparr>"

definition scenarioMessage :: Message where
  "scenarioMessage =
    \<lparr>timestamp = Some ''100'', userId = Some ''U2'', content = Some ''hello'',
     reactions = Some [\<lparr>r_name = ''tada'', r_count = 1, userIds = [''U3'']\<rparr>],
     replies = Some []\<rparr>"

definition scenarioUser :: CurrentUser where
  "scenarioUser =
    \<lparr>cu_id = Some ''U1'', cu_name = Some ''me'', cu_provider = Some ''slack'',
     currentTeamId = None\<rparr>"

definition scenarioStore :: Store where
  "scenarioStore =
    \<lparr>lastChannelId = Some ''C1'', channels = Some [scenarioChannel],
     channelsFetchedAt = None, currentUserInfo = Some scenarioUser,
     currentUserPrefs = \<lparr>mutedChannels = None\<rparr>, users = Some [], usersFetchedAt = None,
     messages = [(''C1'', [(''100'', scenarioMessage)])], effects = []\<rparr>"

text \<open>The same store before anybody has signed in.\<close>

definition signedOutStore :: Store where
  "signedOutStore = scenarioStore\<lparr>currentUserInfo := None\<rparr>"

text \<open>A channel without messages in the store.\<close>

definition quietChannel :: Channel where
  "quietChannel =
    \<lparr>ch_id = ''C2'', ch_name = ''random'', ch_type = channel,
     readTimestamp = Absent, unreadCount = Absent\<rparr>"





text \<open>
  A store after the first start, when no user directory has been persisted, with a
  direct-message channel.
\<close>

definition directChannel :: Channel where
  "directChannel =
    \<lparr>ch_id = ''D1'', ch_name = ''@ann'', ch_type = im,
     readTimestamp = Absent, unreadCount = Absent\<rparr>"

definition firstStartStore :: Store where
  "firstStartStore = scenarioStore\<lparr>channels := Some [directChannel], users := None\<rparr>"


definition manyUsers :: Users where
  "manyUsers =
    map (\<lambda>n. (showNat n, \<lparr>u_id = showNat n, u_name = ''member'', isOnline = None\<rparr>))
      [0..<150]"

section \<open>Verification\<close>

subsection \<open>Callbacks that may throw\<close>



lemma filterE_fails_iff:
  "(\<exists>e. filterE p xs = Inl e) \<longleftrightarrow> (\<exists>x \<in> set xs. \<exists>e. p x = Inl e)"
  by (induction xs) (auto split: sum.splits)

lemma mapE_pure: "mapE (\<lambda>x. Inr (g x)) xs = Inr (map g xs)"
  by (induction xs) simp_all

lemma mapE_cong_set: "(\<And>x. x \<in> set xs \<Longrightarrow> f x = f' x) \<Longrightarrow> mapE f xs = mapE f' xs"
  by (induction xs) (auto split: sum.splits)

lemma mapE_succeeds:
  "(\<And>x. x \<in> set xs \<Longrightarrow> \<exists>y. f x = Inr y) \<Longrightarrow> \<exists>ys. mapE f xs = Inr ys"
proof (induction xs)
  case Nil
  then show ?case by simp
next
  case (Cons x xs)
  from Cons.prems obtain y where y: "f x = Inr y" by auto
  from Cons obtain ys where "mapE f xs = Inr ys" by auto
  with y show ?case by simp
qed

lemma error_is_TypeError: "(e::error) = TypeError"
  by (cases e) simp

subsection \<open>Dictionaries\<close>

lemma map_of_key_defined: "k \<in> set (keys obj) \<Longrightarrow> \<exists>v. map_of obj k = Some v"
  by (induction obj) (auto simp: keys_def)



subsection \<open>Reading timestamps\<close>

lemmas numericValue_defs =
  numericValue_def trim_def isWhiteSpace_def signedDecimal_def unsignedDecimal_def
  isExponentMark_def digitsValue_def digitIn_def hexDigit_def digitTable_def
  exponentValue_def scale10_def radixLiteral_def


lemma floor_numeral_quotient: "\<lfloor>numeral a / numeral b :: rat\<rfloor> = numeral a div numeral b"
  by (metis floor_divide_of_int_eq of_int_numeral)

lemma floor_one_quotient: "\<lfloor>1 / numeral b :: rat\<rfloor> = 1 div numeral b"
  by (metis floor_divide_of_int_eq of_int_1 of_int_numeral)

lemmas toBinary64_defs =
  toBinary64_def roundMagnitude_def binaryExponent_def bitLength.simps pow2_def
  roundHalfEven_def Let_def floor_numeral_quotient floor_one_quotient


lemma toNumber_100: "toNumber ''100'' = Finite 100"
proof -
  have "numericValue ''100'' = Finite 100" by (simp add: numericValue_defs)
  moreover have "toBinary64 100 = Finite 100" by (simp add: toBinary64_defs)
  ultimately show ?thesis by (simp add: toNumber_def)
qed

lemma toNumber_101: "toNumber ''101'' = Finite 101"
proof -
  have "numericValue ''101'' = Finite 101" by (simp add: numericValue_defs)
  moreover have "toBinary64 101 = Finite 101" by (simp add: toBinary64_defs)
  ultimately show ?thesis by (simp add: toNumber_def)
qed







subsection \<open>The unread count\<close>


lemma isUnread_with_user:
  assumes "currentUserInfo st = Some cu" and "map_of msgs ts = Some m"
  shows "isUnread st ch msgs ts = Inr (userId m \<noteq> currentUserId st \<and> newerAsNumber ch ts)"
  using assms by (simp add: isUnread_def currentUserId_def newerAsNumber_def split: option.splits)



lemma getUnreadCount_returns:
  assumes "currentUserInfo st = Some cu"
  shows "\<exists>n. getUnreadCount st ch = Inr n"
proof -
  let ?msgs = "channelMessages st (ch_id ch)"
  have "\<not> (\<exists>e. filterE (isUnread st ch ?msgs) (keys ?msgs) = Inl e)"
  proof -
    have "\<And>ts. ts \<in> set (keys ?msgs) \<Longrightarrow> \<not> (\<exists>e. isUnread st ch ?msgs ts = Inl e)"
    proof -
      fix ts assume "ts \<in> set (keys ?msgs)"
      then obtain m where "map_of ?msgs ts = Some m" using map_of_key_defined by fastforce
      then show "\<not> (\<exists>e. isUnread st ch ?msgs ts = Inl e)"
        by (simp add: isUnread_with_user [OF assms])
    qed
    then show ?thesis unfolding filterE_fails_iff by blast
  qed
  then obtain ys where "filterE (isUnread st ch ?msgs) (keys ?msgs) = Inr ys"
    by (cases "filterE (isUnread st ch ?msgs) (keys ?msgs)") auto
  then show ?thesis by (simp add: getUnreadCount_def Let_def)
qed

lemma getUnreadCount_throws_iff:
  "getUnreadCount st ch = Inl TypeError \<longleftrightarrow>
    \<not> isChannelMuted st (ch_id ch) \<and> channelMessages st (ch_id ch) \<noteq> [] \<and>
    currentUserInfo st = None"
proof (cases "currentUserInfo st")
  case None
  let ?msgs = "channelMessages st (ch_id ch)"
  have each: "\<And>ts. ts \<in> set (keys ?msgs) \<Longrightarrow> isUnread st ch ?msgs ts = Inl TypeError"
  proof -
    fix ts assume "ts \<in> set (keys ?msgs)"
    then obtain m where "map_of ?msgs ts = Some m" using map_of_key_defined by fastforce
    then show "isUnread st ch ?msgs ts = Inl TypeError"
      using None by (simp add: isUnread_def)
  qed
  have "(\<exists>e. filterE (isUnread st ch ?msgs) (keys ?msgs) = Inl e) \<longleftrightarrow> ?msgs \<noteq> []"
  proof
    assume "\<exists>e. filterE (isUnread st ch ?msgs) (keys ?msgs) = Inl e"
    then show "?msgs \<noteq> []" by (auto simp: keys_def)
  next
    assume "?msgs \<noteq> []"
    then obtain ts where "ts \<in> set (keys ?msgs)"
      by (cases ?msgs) (auto simp: keys_def)
    with each show "\<exists>e. filterE (isUnread st ch ?msgs) (keys ?msgs) = Inl e"
      unfolding filterE_fails_iff by blast
  qed
  then have "filterE (isUnread st ch ?msgs) (keys ?msgs) = Inl TypeError \<longleftrightarrow> ?msgs \<noteq> []"
    using error_is_TypeError by metis
  with None show ?thesis
    by (auto simp: getUnreadCount_def Let_def split: sum.splits)
next
  case (Some cu)
  from getUnreadCount_returns [OF Some] obtain n where "getUnreadCount st ch = Inr n"
    by blast
  with Some show ?thesis by simp
qed




text \<open>
  Claim C2, as amended. In the scenario of the specification (current user \<open>U1\<close>, one
  message of \<open>U2\<close> at timestamp \<open>100\<close> in channel \<open>C1\<close>) \<open>getUnreadCount\<close> returns 0
  while the channel has no read timestamp, and returns 0 again once the read timestamp
  is \<open>101\<close>.
\<close>

theorem getUnreadCount_scenario:
  assumes "currentUserInfo st = Some cu" and "cu_id cu = Some ''U1''"
    and "channelMessages st ''C1'' = [(''100'', m)]" and "userId m = Some ''U2''"
  shows "getUnreadCount st scenarioChannel = Inr 0 \<and>
         getUnreadCount st (scenarioChannel\<lparr>readTimestamp := Defined ''101''\<rparr>) = Inr 0"
  using assms
  by (simp add: getUnreadCount_def scenarioChannel_def keys_def isUnread_def
      truthyString_def truthyNumber_def toNumber_100 toNumber_101)

theorem getUnreadCount_scenario_witness:
  "currentUserInfo scenarioStore = Some scenarioUser \<and> cu_id scenarioUser = Some ''U1'' \<and>
   channelMessages scenarioStore ''C1'' = [(''100'', scenarioMessage)] \<and>
   userId scenarioMessage = Some ''U2'' \<and>
   getUnreadCount scenarioStore scenarioChannel = Inr 0 \<and>
   getUnreadCount scenarioStore (scenarioChannel\<lparr>readTimestamp := Defined ''101''\<rparr>) = Inr 0"
proof -
  have a: "currentUserInfo scenarioStore = Some scenarioUser"
    by (simp add: scenarioStore_def)
  have b: "cu_id scenarioUser = Some ''U1''"
    by (simp add: scenarioUser_def)
  have c: "channelMessages scenarioStore ''C1'' = [(''100'', scenarioMessage)]"
    by (simp add: scenarioStore_def channelMessages_def)
  have d: "userId scenarioMessage = Some ''U2''"
    by (simp add: scenarioMessage_def)
  from getUnreadCount_scenario [OF a b c d] a b c d show ?thesis by simp
qed

text \<open>
  Claim C2 as stated fails in its first half: without a read timestamp no message is
  unread, so the count is 0 and not 1.
\<close>

theorem getUnreadCount_scenario_counterexample:
  "getUnreadCount scenarioStore scenarioChannel \<noteq> Inr 1"
  by (simp add: getUnreadCount_def isChannelMuted_def channelMessages_def keys_def
      isUnread_def truthyString_def truthyNumber_def
      scenarioStore_def scenarioChannel_def scenarioMessage_def scenarioUser_def)

lemma find_key_defined:
  "find P (keys obj) = Some k \<Longrightarrow> \<exists>v. map_of obj k = Some v"
proof -
  assume "find P (keys obj) = Some k"
  then have "k \<in> set (keys obj)"
    by (induction obj) (auto simp: keys_def split: if_splits)
  then show ?thesis by (rule map_of_key_defined)
qed

lemma relatedOnline_returns:
  assumes "users st = Some us"
  shows "\<exists>online. relatedOnline st ch = Inr online"
proof (cases "ch_type ch = im")
  case False
  then show ?thesis by (simp add: relatedOnline_def)
next
  case True
  let ?found = "find (\<lambda>uid. case map_of us uid of
                            None \<Rightarrow> False
                          | Some u \<Rightarrow> CHR ''@'' # u_name u = ch_name ch \<or> u_name u = ch_name ch)
                  (keys us)"
  have r: "relatedUserId st (ch_name ch) = Inr ?found"
    using assms by (simp add: relatedUserId_def)
  show ?thesis
  proof (cases ?found)
    case None
    with True r show ?thesis by (simp add: relatedOnline_def)
  next
    case (Some uid)
    then obtain u where "map_of us uid = Some u" using find_key_defined by fastforce
    with True r Some assms show ?thesis by (simp add: relatedOnline_def)
  qed
qed

text \<open>
  Claim C10, as amended. For a message store with the prototype it was created with,
  \<open>getUnreadCount\<close> reads \<open>currentUserInfo.id\<close> once for each message of a channel that
  is not muted: it throws exactly when the channel is not muted, has at least one
  message in the store and no current user is recorded. With a
  current user recorded it returns a count for every channel, and so
  \<open>updateUnreadCount\<close>, which calls it for every channel of a defined channel list, does
  not throw; neither does \<open>getChannelLabels\<close>, which reads the user directory as well,
  when that is defined.
\<close>

theorem getUnreadCount_current_user_safety:
  assumes "plainMessages st"
  shows
  "(getUnreadCount st ch = Inl TypeError \<longleftrightarrow>
      \<not> isChannelMuted st (ch_id ch) \<and> channelMessages st (ch_id ch) \<noteq> [] \<and>
      currentUserInfo st = None) \<and>
   (currentUserInfo st \<noteq> None \<longrightarrow> (\<exists>n. getUnreadCount st ch = Inr n)) \<and>
   (currentUserInfo st \<noteq> None \<and> channels st \<noteq> None \<longrightarrow>
      fst (updateUnreadCount st) = Inr ()) \<and>
   (currentUserInfo st \<noteq> None \<and> channels st \<noteq> None \<and> users st \<noteq> None \<longrightarrow>
      (\<exists>labels. getChannelLabels st = Inr labels))"
proof (intro conjI impI)
  show "getUnreadCount st ch = Inl TypeError \<longleftrightarrow>
      \<not> isChannelMuted st (ch_id ch) \<and> channelMessages st (ch_id ch) \<noteq> [] \<and>
      currentUserInfo st = None"
    by (rule getUnreadCount_throws_iff)
next
  assume "currentUserInfo st \<noteq> None"
  then obtain cu where "currentUserInfo st = Some cu" by auto
  then show "\<exists>n. getUnreadCount st ch = Inr n" by (rule getUnreadCount_returns)
next
  assume a: "currentUserInfo st \<noteq> None \<and> channels st \<noteq> None"
  then obtain cu cs where cu: "currentUserInfo st = Some cu" and cs: "channels st = Some cs"
    by auto
  have "\<exists>ns. mapE (getUnreadCount st) cs = Inr ns"
    using getUnreadCount_returns [OF cu] by (intro mapE_succeeds) blast
  with cs show "fst (updateUnreadCount st) = Inr ()"
    by (auto simp: updateUnreadCount_def)
next
  assume a: "currentUserInfo st \<noteq> None \<and> channels st \<noteq> None \<and> users st \<noteq> None"
  then obtain cu cs us where cu: "currentUserInfo st = Some cu"
    and cs: "channels st = Some cs" and us: "users st = Some us"
    by auto
  have "\<And>c. \<exists>l. channelLabel st c = Inr l"
  proof -
    fix c
    from getUnreadCount_returns [OF cu] obtain n where "getUnreadCount st c = Inr n"
      by blast
    moreover from relatedOnline_returns [OF us] obtain online
      where "relatedOnline st c = Inr online" by blast
    ultimately show "\<exists>l. channelLabel st c = Inr l"
      by (simp add: channelLabel_def Let_def)
  qed
  then have "\<exists>ls. mapE (channelLabel st) cs = Inr ls"
    by (intro mapE_succeeds) blast
  with cs show "\<exists>labels. getChannelLabels st = Inr labels"
    by (simp add: getChannelLabels_def)
qed

theorem getUnreadCount_current_user_safety_witness:
  "plainMessages signedOutStore \<and> plainMessages scenarioStore \<and>
   getUnreadCount signedOutStore scenarioChannel = Inl TypeError \<and>
   getUnreadCount signedOutStore quietChannel \<noteq> Inl TypeError \<and>
   (\<exists>n. getUnreadCount scenarioStore scenarioChannel = Inr n) \<and>
   fst (updateUnreadCount scenarioStore) = Inr () \<and>
   (\<exists>labels. getChannelLabels scenarioStore = Inr labels)"
  using getUnreadCount_current_user_safety [of signedOutStore scenarioChannel]
    getUnreadCount_current_user_safety [of signedOutStore quietChannel]
    getUnreadCount_current_user_safety [of scenarioStore scenarioChannel]
  by (simp add: signedOutStore_def scenarioStore_def scenarioChannel_def quietChannel_def
      isChannelMuted_def channelMessages_def plainMessages_def)

text \<open>
  Claim C10 as stated fails for a channel without messages: nobody is signed in, the
  channel is not muted, and \<open>getUnreadCount\<close> returns 0 without reading the current
  user.
\<close>

theorem getUnreadCount_no_messages_counterexample:
  "\<not> isChannelMuted signedOutStore (ch_id quietChannel) \<and>
   currentUserInfo signedOutStore = None \<and>
   getUnreadCount signedOutStore quietChannel = Inr 0"
  by (simp add: getUnreadCount_def isChannelMuted_def channelMessages_def keys_def
      truthyNumber_def signedOutStore_def scenarioStore_def quietChannel_def)

text \<open>
  Why the labels need the user directory: after a first start nothing has been
  persisted and \<open>users\<close> is \<open>undefined\<close>; for a direct-message channel \<open>getChannelLabels\<close>
  then throws at \<open>Object.keys(this.users)\<close>, with a current user recorded, while
  \<open>updateUnreadCount\<close> returns.
\<close>

lemma getChannelLabels_without_users:
  "currentUserInfo firstStartStore \<noteq> None \<and>
   getChannelLabels firstStartStore = Inl TypeError \<and>
   fst (updateUnreadCount firstStartStore) = Inr ()"
  by (simp add: getChannelLabels_def channelLabel_def relatedOnline_def relatedUserId_def
      updateUnreadCount_def emit_def
      getUnreadCount_def isChannelMuted_def channelMessages_def keys_def truthyNumber_def
      firstStartStore_def scenarioStore_def directChannel_def)

subsection \<open>What a refresh of the views leaves alone\<close>

lemma effects_only_refl: "\<exists>es. (s::Store) = s\<lparr>effects := es\<rparr>"
  by (rule exI [of _ "effects s"]) simp

lemma updateUnreadCount_effects_only: "\<exists>es. snd (updateUnreadCount st) = st\<lparr>effects := es\<rparr>"
proof (cases "snd (updateUnreadCount st) = st")
  case True
  then have "snd (updateUnreadCount st) = st\<lparr>effects := effects st\<rparr>" by simp
  then show ?thesis by blast
next
  case False
  then show ?thesis
    by (auto simp: updateUnreadCount_def emit_def split: option.splits sum.splits)
qed

lemma updateTreeViews_effects_only: "\<exists>es. snd (updateTreeViews st) = st\<lparr>effects := es\<rparr>"
proof (cases "snd (updateTreeViews st) = st")
  case True
  then have "snd (updateTreeViews st) = st\<lparr>effects := effects st\<rparr>" by simp
  then show ?thesis by blast
next
  case False
  then show ?thesis
    by (auto simp: updateTreeViews_def emit_def Let_def split: option.splits sum.splits if_splits)
qed

lemma updateWebviewUI_effects_only: "\<exists>es. snd (updateWebviewUI st) = st\<lparr>effects := es\<rparr>"
proof (cases "snd (updateWebviewUI st) = st")
  case True
  then have "snd (updateWebviewUI st) = st\<lparr>effects := effects st\<rparr>" by simp
  then show ?thesis by blast
next
  case False
  then show ?thesis
    by (auto simp: updateWebviewUI_def emit_def Let_def split: option.splits sum.splits)
qed

lemma and_then_effects_only:
  assumes "\<exists>es. snd r = st\<lparr>effects := es\<rparr>"
    and "\<And>s. \<exists>es. snd (f s) = s\<lparr>effects := es\<rparr>"
  shows "\<exists>es. snd (and_then r f) = st\<lparr>effects := es\<rparr>"
proof -
  obtain out s where r: "r = (out, s)" by (cases r)
  with assms(1) obtain es where s: "s = st\<lparr>effects := es\<rparr>" by auto
  show ?thesis
  proof (cases out)
    case (Inl e)
    with r s show ?thesis by (auto simp: and_then_def)
  next
    case (Inr u)
    from assms(2) obtain es' where "snd (f s) = s\<lparr>effects := es'\<rparr>" by blast
    with r s Inr show ?thesis by (auto simp: and_then_def)
  qed
qed

lemma updateAllUI_effects_only: "\<exists>es. snd (updateAllUI st) = st\<lparr>effects := es\<rparr>"
  unfolding updateAllUI_def
  by (intro and_then_effects_only updateUnreadCount_effects_only
      updateTreeViews_effects_only updateWebviewUI_effects_only)

lemma fillUpUsers_effects_only: "\<exists>es. fillUpUsers st ids = st\<lparr>effects := es\<rparr>"
  unfolding fillUpUsers_def
proof (induction ids arbitrary: st)
  case Nil
  show ?case using effects_only_refl [of st] by simp
next
  case (Cons i ids)
  from Cons [of "emit (ProviderFetchUserInfo i) st"] show ?case
    by (auto simp: emit_def)
qed

lemma updateMessages_store:
  "\<exists>es. snd (updateMessages st channelId newMessages) =
     st\<lparr>messages := AList.update channelId
                      (mergeMessages (channelMessages st channelId) newMessages)
                      (messages st),
        effects := es\<rparr>"
proof -
  let ?st1 = "st\<lparr>messages := AList.update channelId
                      (mergeMessages (channelMessages st channelId) newMessages)
                      (messages st)\<rparr>"
  let ?ids = "setOf (map userId (dict_values (channelMessages ?st1 channelId)))"
  show ?thesis
  proof (cases "users st")
    case None
    then have "snd (updateMessages st channelId newMessages) = ?st1"
      by (simp add: updateMessages_def Let_def)
    with effects_only_refl [of ?st1] show ?thesis by simp
  next
    case (Some us)
    let ?all = "map Some (setOf (keys us))"
    let ?st2 = "if \<not> isSuperset ?all ?ids then fillUpUsers ?st1 (difference ?ids ?all) else ?st1"
    have "\<exists>es. ?st2 = ?st1\<lparr>effects := es\<rparr>"
    proof (cases "isSuperset ?all ?ids")
      case True
      then show ?thesis using effects_only_refl [of ?st1] by simp
    next
      case False
      then show ?thesis using fillUpUsers_effects_only [of ?st1] by simp
    qed
    then obtain es where st2: "?st2 = ?st1\<lparr>effects := es\<rparr>" by blast
    from updateAllUI_effects_only [of ?st2] obtain es' where
      "snd (updateAllUI ?st2) = ?st2\<lparr>effects := es'\<rparr>" by blast
    with st2 have "snd (updateAllUI ?st2) = ?st1\<lparr>effects := es'\<rparr>" by simp
    moreover have "updateMessages st channelId newMessages = updateAllUI ?st2"
      using Some by (simp add: updateMessages_def Let_def)
    ultimately show ?thesis by auto
  qed
qed

lemma updateMessages_messages:
  "messages (snd (updateMessages st channelId newMessages)) =
     AList.update channelId (mergeMessages (channelMessages st channelId) newMessages)
       (messages st)"
  using updateMessages_store [of st channelId newMessages] by auto

lemma channelMessages_updateMessages:
  "channelMessages (snd (updateMessages st channelId newMessages)) channelId =
     mergeMessages (channelMessages st channelId) newMessages"
  by (simp add: channelMessages_def [of "snd (updateMessages st channelId newMessages)"]
      updateMessages_messages AList.update_conv')

subsection \<open>Merges into a missing parent\<close>









subsection \<open>The size limit of the persistent state\<close>

text \<open>
  Claim C8. \<open>updateUsers\<close> and \<open>updateChannels\<close> always replace the collection in memory;
  they call the persistence for their key exactly when the collection has at most 100
  entries, and make no other call. A user collection of 150 entries is in memory
  afterwards and the persistence is not called.
\<close>

theorem persistence_size_limit:
  "updateUsers st us =
     st\<lparr>users := Some us,
        effects := effects st @
          (if length (keys us) \<le> 100 then [GlobalStateUpdate USERS (StoredUsers us)] else [])\<rparr> \<and>
   updateChannels st cs =
     st\<lparr>channels := Some cs,
        effects := effects st @
          (if length cs \<le> 100 then [GlobalStateUpdate CHANNELS (StoredChannels cs)] else [])\<rparr> \<and>
   (length (keys us) = 150 \<longrightarrow>
      users (updateUsers st us) = Some us \<and> effects (updateUsers st us) = effects st)"
  by (simp add: updateUsers_def updateChannels_def emit_def STORAGE_SIZE_LIMIT_def Let_def)

theorem persistence_size_limit_witness:
  "length (keys manyUsers) = 150 \<and>
   users (updateUsers scenarioStore manyUsers) = Some manyUsers \<and>
   effects (updateUsers scenarioStore manyUsers) = effects scenarioStore \<and>
   effects (updateUsers scenarioStore []) = [GlobalStateUpdate USERS (StoredUsers [])] \<and>
   effects (updateChannels scenarioStore [quietChannel])
     = [GlobalStateUpdate CHANNELS (StoredChannels [quietChannel])]"
proof -
  have n: "length (keys manyUsers) = 150"
    by (simp add: manyUsers_def keys_def)
  have e: "effects scenarioStore = []"
    by (simp add: scenarioStore_def)
  show ?thesis
    using n e persistence_size_limit [of scenarioStore manyUsers "[quietChannel]"]
      persistence_size_limit [of scenarioStore "[]" "[quietChannel]"]
    by (simp add: keys_def)
qed

subsection \<open>The team of the current user\<close>

lemma updateCurrentUser_info:
  "currentUserInfo (updateCurrentUser st (Some ui)) =
    Some (ui\<lparr>currentTeamId :=
               (if truthy (currentTeamId ui) then currentTeamId ui
                else case currentUserInfo st of
                       Some cu \<Rightarrow> currentTeamId cu
                     | None \<Rightarrow> None)\<rparr>)"
  by (simp add: updateCurrentUser_def emit_def Let_def)

lemma updateCurrentUser_sequence:
  assumes "currentUserInfo st = Some cu" and "currentTeamId cu = Some t"
  shows "\<exists>cu'. currentUserInfo (fold (\<lambda>ui s. updateCurrentUser s (Some ui)) uis st) = Some cu' \<and>
               currentTeamId cu' \<noteq> None \<and>
               ((\<forall>ui \<in> set uis. currentTeamId ui = None) \<longrightarrow> currentTeamId cu' = Some t)"
  using assms
proof (induction uis arbitrary: st cu t)
  case Nil
  then show ?case by simp
next
  case (Cons ui uis)
  let ?st = "updateCurrentUser st (Some ui)"
  let ?cu = "ui\<lparr>currentTeamId :=
               (if truthy (currentTeamId ui) then currentTeamId ui else Some t)\<rparr>"
  have info: "currentUserInfo ?st = Some ?cu"
    using Cons.prems by (simp add: updateCurrentUser_info)
  show ?case
  proof (cases "truthy (currentTeamId ui)")
    case True
    then obtain t' where t': "currentTeamId ui = Some t'"
      by (auto simp: truthy_def split: option.splits)
    with True have "currentTeamId ?cu = Some t'" by simp
    from Cons.IH [OF info this] t' show ?thesis by auto
  next
    case False
    then have "currentTeamId ?cu = Some t" by simp
    from Cons.IH [OF info this] show ?thesis by auto
  qed
qed

text \<open>
  Claim C6. When the current user has a team id, \<open>updateCurrentUser\<close> with a user record
  stores that record with a team id that is defined: the one of the record where it
  supplies one, the recorded one where it has none. The same holds after any number of
  such calls.
\<close>

theorem updateCurrentUser_keeps_team:
  assumes "currentUserInfo st = Some cu" and "currentTeamId cu = Some t"
  shows "(\<exists>cu'. currentUserInfo (updateCurrentUser st (Some ui)) = Some cu' \<and>
            currentTeamId cu' \<noteq> None \<and>
            (currentTeamId ui = None \<longrightarrow> currentTeamId cu' = Some t) \<and>
            (currentTeamId cu' = Some t \<or> currentTeamId cu' = currentTeamId ui)) \<and>
         (\<exists>cu'. currentUserInfo (fold (\<lambda>ui s. updateCurrentUser s (Some ui)) uis st) = Some cu' \<and>
            currentTeamId cu' \<noteq> None \<and>
            ((\<forall>ui \<in> set uis. currentTeamId ui = None) \<longrightarrow> currentTeamId cu' = Some t))"
proof
  show "\<exists>cu'. currentUserInfo (updateCurrentUser st (Some ui)) = Some cu' \<and>
            currentTeamId cu' \<noteq> None \<and>
            (currentTeamId ui = None \<longrightarrow> currentTeamId cu' = Some t) \<and>
            (currentTeamId cu' = Some t \<or> currentTeamId cu' = currentTeamId ui)"
    using assms
    by (auto simp: updateCurrentUser_info truthy_def split: option.splits)
next
  show "\<exists>cu'. currentUserInfo (fold (\<lambda>ui s. updateCurrentUser s (Some ui)) uis st) = Some cu' \<and>
            currentTeamId cu' \<noteq> None \<and>
            ((\<forall>ui \<in> set uis. currentTeamId ui = None) \<longrightarrow> currentTeamId cu' = Some t)"
    by (rule updateCurrentUser_sequence [OF assms])
qed

theorem updateCurrentUser_keeps_team_witness:
  "currentUserInfo (scenarioStore\<lparr>currentUserInfo := Some (scenarioUser\<lparr>currentTeamId := Some ''T1''\<rparr>)\<rparr>)
     = Some (scenarioUser\<lparr>currentTeamId := Some ''T1''\<rparr>) \<and>
   currentTeamId (scenarioUser\<lparr>currentTeamId := Some ''T1''\<rparr>) = Some ''T1'' \<and>
   currentUserInfo
     (updateCurrentUser
        (scenarioStore\<lparr>currentUserInfo := Some (scenarioUser\<lparr>currentTeamId := Some ''T1''\<rparr>)\<rparr>)
        (Some scenarioUser))
     = Some (scenarioUser\<lparr>currentTeamId := Some ''T1''\<rparr>)"
proof -
  let ?st = "scenarioStore\<lparr>currentUserInfo := Some (scenarioUser\<lparr>currentTeamId := Some ''T1''\<rparr>)\<rparr>"
  have a: "currentUserInfo ?st = Some (scenarioUser\<lparr>currentTeamId := Some ''T1''\<rparr>)"
    by simp
  have b: "currentTeamId (scenarioUser\<lparr>currentTeamId := Some ''T1''\<rparr>) = Some ''T1''"
    by simp
  have n: "currentTeamId scenarioUser = None"
    by (simp add: scenarioUser_def)
  from updateCurrentUser_keeps_team [OF a b, of scenarioUser "[]"] n
  obtain cu' where c: "currentUserInfo (updateCurrentUser ?st (Some scenarioUser)) = Some cu'"
    and t: "currentTeamId cu' = Some ''T1''"
    by auto
  have "currentUserInfo (updateCurrentUser ?st (Some scenarioUser))
          = Some (scenarioUser\<lparr>currentTeamId := Some ''T1''\<rparr>)"
    using n by (simp add: updateCurrentUser_info truthy_def)
  with a b c t show ?thesis by simp
qed

lemma updateCurrentWorkspace_team:
  "\<exists>cu'. currentUserInfo (updateCurrentWorkspace st team) = Some cu' \<and>
     currentTeamId cu' =
       (if team_id team \<noteq> [] then Some (team_id team)
        else case currentUserInfo st of Some cu \<Rightarrow> currentTeamId cu | None \<Rightarrow> None)"
  by (auto simp: updateCurrentWorkspace_def updateCurrentUser_info truthy_def Let_def
        split: option.splits)

subsection \<open>Upserting a channel\<close>

lemma channels_emit [simp]: "channels (emit e st) = channels st"
  by (simp add: emit_def)

lemma channels_updateTreeViews [simp]: "channels (snd (updateTreeViews st)) = channels st"
  by (simp add: updateTreeViews_def Let_def split: option.splits sum.splits)

lemma channels_updateChannels [simp]: "channels (updateChannels st cs) = Some cs"
  by (simp add: updateChannels_def Let_def)

lemma spreadChannel_same [simp]: "spreadChannel c c = c"
  by (cases "readTimestamp c"; cases "unreadCount c") (simp_all add: spreadChannel_def spread_field_def)

lemma spreadChannel_twice [simp]: "spreadChannel (spreadChannel old c) c = spreadChannel old c"
  by (cases "readTimestamp c"; cases "unreadCount c") (simp_all add: spreadChannel_def spread_field_def)

lemma ch_id_spreadChannel [simp]: "ch_id (spreadChannel old c) = ch_id c"
  by (simp add: spreadChannel_def)

lemma updateChannel_channels:
  assumes "channels st = Some cs"
  shows "channels (snd (updateChannel st c)) =
    Some (if ch_id c \<in> set (map ch_id cs)
          then map (\<lambda>ch. if ch_id ch = ch_id c then spreadChannel ch c else ch) cs
          else cs @ [c])"
proof -
  have "ch_id c \<notin> set (map ch_id cs) \<Longrightarrow>
        map (\<lambda>ch. if ch_id ch = ch_id c then spreadChannel ch c else ch) cs = cs"
    by (induction cs) auto
  then show ?thesis
    using assms by (auto simp: updateChannel_def Let_def)
qed

lemma upsert_twice:
  "map (\<lambda>ch. if ch_id ch = ch_id c then spreadChannel ch c else ch)
     (map (\<lambda>ch. if ch_id ch = ch_id c then spreadChannel ch c else ch) cs)
   = map (\<lambda>ch. if ch_id ch = ch_id c then spreadChannel ch c else ch) cs"
  by (induction cs) auto

lemma upsert_keeps_id:
  "ch_id c \<in> set (map ch_id cs) \<Longrightarrow>
   ch_id c \<in> set (map ch_id (map (\<lambda>ch. if ch_id ch = ch_id c then spreadChannel ch c else ch) cs))"
  by (induction cs) auto

text \<open>
  Claim C7. \<open>updateChannel\<close> with the same channel a second time leaves the channel
  collection, and so its size, as the first call left it.
\<close>

theorem updateChannel_idempotent:
  "channels (snd (updateChannel (snd (updateChannel st c)) c))
     = channels (snd (updateChannel st c)) \<and>
   map_option length (channels (snd (updateChannel (snd (updateChannel st c)) c)))
     = map_option length (channels (snd (updateChannel st c)))"
proof (cases "channels st")
  case None
  then show ?thesis by (simp add: updateChannel_def)
next
  case (Some cs)
  let ?f = "\<lambda>ch. if ch_id ch = ch_id c then spreadChannel ch c else ch"
  show ?thesis
  proof (cases "ch_id c \<in> set (map ch_id cs)")
    case True
    have one: "channels (snd (updateChannel st c)) = Some (map ?f cs)"
      using updateChannel_channels [OF Some, of c] True by simp
    have "channels (snd (updateChannel (snd (updateChannel st c)) c)) = Some (map ?f (map ?f cs))"
      using updateChannel_channels [OF one, of c] upsert_keeps_id [OF True] by simp
    with one show ?thesis by (simp only: upsert_twice)
  next
    case False
    have one: "channels (snd (updateChannel st c)) = Some (cs @ [c])"
      using updateChannel_channels [OF Some, of c] False by simp
    have keep: "map ?f cs = cs"
      using False by (induction cs) auto
    have "channels (snd (updateChannel (snd (updateChannel st c)) c)) = Some (map ?f (cs @ [c]))"
      using updateChannel_channels [OF one, of c] by simp
    with one keep show ?thesis by simp
  qed
qed

theorem updateChannel_idempotent_witness:
  "channels (snd (updateChannel scenarioStore quietChannel))
     = Some [scenarioChannel, quietChannel] \<and>
   channels (snd (updateChannel (snd (updateChannel scenarioStore quietChannel)) quietChannel))
     = Some [scenarioChannel, quietChannel]"
proof -
  have cs: "channels scenarioStore = Some [scenarioChannel]"
    by (simp add: scenarioStore_def)
  have one: "channels (snd (updateChannel scenarioStore quietChannel))
      = Some [scenarioChannel, quietChannel]"
    using updateChannel_channels [OF cs, of quietChannel]
    by (simp add: scenarioChannel_def quietChannel_def)
  with updateChannel_idempotent [of scenarioStore quietChannel] show ?thesis by simp
qed

subsection \<open>Cached reads\<close>

lemma getUsersPromise_cached:
  "users st = Some us \<Longrightarrow> us \<noteq> [] \<Longrightarrow>
   getUsersPromise st now =
     (Inr (ResolvedWith us),
      if shouldFetchNew (usersFetchedAt st) now then fetchUsers st else st)"
  by (simp add: getUsersPromise_def keys_def)

lemma getUsersPromise_empty:
  "users st = Some [] \<Longrightarrow> getUsersPromise st now = (Inr FetchPromise, fetchUsers st)"
  by (simp add: getUsersPromise_def keys_def)

lemma getUsersPromise_undefined:
  "users st = None \<Longrightarrow> getUsersPromise st now = (Inl TypeError, st)"
  by (simp add: getUsersPromise_def)

lemma getChannelsPromise_defined:
  "channels st = Some cs \<Longrightarrow>
   getChannelsPromise st now =
     (ResolvedWith cs,
      if shouldFetchNew (channelsFetchedAt st) now then fetchChannels st else st)"
  by (simp add: getChannelsPromise_def)

text \<open>
  Claim C3 at its failing input. Once the channel collection has been replaced by the
  empty list, as \<open>clearOldWorkspace\<close> does with \<open>updateChannels([])\<close>, the caller of
  \<open>getChannelsPromise\<close> holds a promise resolved with the empty cache, not the promise of
  the fetch; the caller of \<open>getUsersPromise\<close> with an empty user cache holds the promise
  of the fetch.
\<close>

theorem getChannelsPromise_empty_cache:
  "fst (getChannelsPromise (updateChannels st []) now) = ResolvedWith [] \<and>
   fst (getUsersPromise (updateUsers st []) now) = Inr FetchPromise"
  by (simp add: getChannelsPromise_def getUsersPromise_def updateUsers_def emit_def keys_def
      Let_def)

subsection \<open>Merging a message mapping\<close>

lemma update_absent: "k \<notin> fst ` set al \<Longrightarrow> AList.update k v al = al @ [(k, v)]"
  by (induction al) auto

lemma fold_update_other:
  "k \<notin> fst ` set new \<Longrightarrow>
   map_of (fold (\<lambda>(k, v) acc. AList.update k v acc) new acc) k = map_of acc k"
  by (induction new arbitrary: acc) (auto simp: AList.update_conv')

lemma fold_update_binding:
  "distinct (map fst new) \<Longrightarrow> (k, v) \<in> set new \<Longrightarrow>
   map_of (fold (\<lambda>(k, v) acc. AList.update k v acc) new acc) k = Some v"
proof (induction new arbitrary: acc)
  case Nil
  then show ?case by simp
next
  case (Cons p new)
  obtain k' v' where p: "p = (k', v')" by (cases p)
  show ?case
  proof (cases "(k, v) = p")
    case True
    with Cons.prems p have "k \<notin> fst ` set new" by auto
    with True p show ?thesis
      by (simp add: fold_update_other AList.update_conv')
  next
    case False
    with Cons.prems have "(k, v) \<in> set new" and "distinct (map fst new)" by auto
    with Cons.IH p show ?thesis by simp
  qed
qed

lemma fold_update_distinct:
  "distinct (map fst acc) \<Longrightarrow>
   distinct (map fst (fold (\<lambda>(k, v) acc. AList.update k v acc) new acc))"
  by (induction new arbitrary: acc) (auto simp: AList.distinct_update)

lemma keys_lifted: "map fst (map (\<lambda>(k, m). (k, Some m)) xs) = map fst xs"
  by (induction xs) auto

lemma distinct_lifted:
  "distinct (keys xs) \<Longrightarrow> distinct (map fst (map (\<lambda>(k, m). (k, Some m)) xs))"
  by (simp only: keys_lifted keys_def)

lemma defined_entries_lifted:
  "List.map_filter (\<lambda>(k, v). map_option (Pair k) v) (map (\<lambda>(k, m). (k, Some m)) xs) = xs"
  by (induction xs) (auto simp: List.map_filter_simps)

lemma defined_entries_append:
  "List.map_filter f (xs @ ys) = List.map_filter f xs @ List.map_filter f ys"
  by (simp add: List.map_filter_def)

lemma lifted_defined_entries:
  "map (\<lambda>(k, m). (k, Some m)) (List.map_filter (\<lambda>(k, v). map_option (Pair k) v) xs)
   = filter (\<lambda>(k, v). v \<noteq> None) xs"
  by (induction xs) (auto simp: List.map_filter_simps)

lemma keys_defined_entries:
  "fst ` set (List.map_filter (\<lambda>(k, v). map_option (Pair k) v) xs)
   = fst ` set (filter (\<lambda>(k, v). v \<noteq> None) xs)"
proof -
  have "fst ` set (map (\<lambda>(k, m). (k, Some m))
           (List.map_filter (\<lambda>(k, v). map_option (Pair k) v) xs))
        = fst ` set (List.map_filter (\<lambda>(k, v). map_option (Pair k) v) xs)"
    by (force simp: image_iff)
  then show ?thesis by (simp add: lifted_defined_entries)
qed

lemma filter_drops_key:
  "distinct (map fst xs) \<Longrightarrow> map_of xs k = Some v \<Longrightarrow> \<not> P (k, v) \<Longrightarrow>
   k \<notin> fst ` set (filter P xs)"
proof (induction xs)
  case Nil
  then show ?case by simp
next
  case (Cons p xs)
  obtain k' v' where p: "p = (k', v')" by (cases p)
  show ?case
  proof (cases "k' = k")
    case True
    with Cons.prems p have "v' = v" and "k \<notin> fst ` set xs" by auto
    then have "k \<notin> fst ` set (filter P xs)" by auto
    with True p \<open>v' = v\<close> Cons.prems(3) show ?thesis by simp
  next
    case False
    with Cons.prems p have "map_of xs k = Some v" and "distinct (map fst xs)" by auto
    from Cons.IH [OF this(2) this(1) Cons.prems(3)] False p show ?thesis by auto
  qed
qed

lemma filter_keeps_binding:
  "map_of xs k = Some v \<Longrightarrow> P (k, v) \<Longrightarrow> map_of (filter P xs) k = Some v"
  by (induction xs) (auto split: if_splits)

lemma map_of_absent: "k \<notin> fst ` set xs \<Longrightarrow> map_of xs k = None"
  by (simp add: map_of_eq_None_iff)

text \<open>
  A second merge of the same mapping into the cleaned result changes nothing: a defined
  binding is already there, and a deleted one is appended and removed again.
\<close>

lemma fold_update_absorbed:
  assumes "distinct (map fst new)"
    and "\<And>k v. (k, v) \<in> set new \<Longrightarrow> map_of acc k = Some v \<or> (v = None \<and> map_of acc k = None)"
  shows "List.map_filter (\<lambda>(k, v). map_option (Pair k) v)
           (fold (\<lambda>(k, v) acc. AList.update k v acc) new acc)
         = List.map_filter (\<lambda>(k, v). map_option (Pair k) v) acc"
  using assms
proof (induction new arbitrary: acc)
  case Nil
  then show ?case by simp
next
  case (Cons p new)
  obtain k v where p: "p = (k, v)" by (cases p)
  let ?acc = "AList.update k v acc"
  have here: "map_of acc k = Some v \<or> (v = None \<and> map_of acc k = None)"
    using Cons.prems(2) [of k v] p by simp
  have step: "List.map_filter (\<lambda>(k, v). map_option (Pair k) v) ?acc
            = List.map_filter (\<lambda>(k, v). map_option (Pair k) v) acc"
  proof (cases "map_of acc k = Some v")
    case True
    then show ?thesis by (simp add: AList.update_triv)
  next
    case False
    with here have v: "v = None" and "map_of acc k = None" by auto
    then have "k \<notin> fst ` set acc" by (simp add: map_of_eq_None_iff)
    then have "?acc = acc @ [(k, v)]" by (rule update_absent)
    with v show ?thesis
      by (simp add: defined_entries_append List.map_filter_simps)
  qed
  have d: "distinct (map fst new)" and notin: "k \<notin> fst ` set new"
    using Cons.prems(1) p by auto
  have inv: "\<And>k' v'. (k', v') \<in> set new \<Longrightarrow>
               map_of ?acc k' = Some v' \<or> (v' = None \<and> map_of ?acc k' = None)"
  proof -
    fix k' v' assume in_new: "(k', v') \<in> set new"
    with notin have "k' \<noteq> k" by force
    then have "map_of ?acc k' = map_of acc k'" by (simp add: AList.update_conv')
    with Cons.prems(2) [of k' v'] in_new show
      "map_of ?acc k' = Some v' \<or> (v' = None \<and> map_of ?acc k' = None)" by simp
  qed
  from Cons.IH [OF d inv] step p show ?case by simp
qed

lemma mergeMessages_deleted:
  assumes "distinct (keys old)" and "distinct (keys new)" and "(ts, None) \<in> set new"
  shows "\<not> has_key ts (mergeMessages old new)"
proof -
  let ?m = "fold (\<lambda>(k, v) acc. AList.update k v acc) new (map (\<lambda>(k, m). (k, Some m)) old)"
  have "distinct (map fst ?m)"
    by (intro fold_update_distinct distinct_lifted assms(1))
  moreover have "map_of ?m ts = Some None"
    using assms(2,3) by (intro fold_update_binding) (simp_all add: keys_def)
  ultimately have "ts \<notin> fst ` set (filter (\<lambda>(k, v). v \<noteq> None) ?m)"
    by (intro filter_drops_key [where v = None]) simp_all
  then show ?thesis
    by (simp add: has_key_def mergeMessages_def spread_def keys_defined_entries)
qed

lemma mergeMessages_idempotent:
  assumes "distinct (keys old)" and "distinct (keys new)"
  shows "mergeMessages (mergeMessages old new) new = mergeMessages old new"
proof -
  let ?lift = "map (\<lambda>(k, m). (k, Some m))"
  let ?defined = "List.map_filter (\<lambda>(k, v). map_option (Pair k) v)"
  let ?m = "fold (\<lambda>(k, v) acc. AList.update k v acc) new (?lift old)"
  have dm: "distinct (map fst ?m)"
    by (intro fold_update_distinct distinct_lifted assms(1))
  have inv: "\<And>k v. (k, v) \<in> set new \<Longrightarrow>
     map_of (?lift (?defined ?m)) k = Some v \<or> (v = None \<and> map_of (?lift (?defined ?m)) k = None)"
  proof -
    fix k v assume "(k, v) \<in> set new"
    with assms(2) have b: "map_of ?m k = Some v"
      by (intro fold_update_binding) (simp_all add: keys_def)
    show "map_of (?lift (?defined ?m)) k = Some v \<or>
          (v = None \<and> map_of (?lift (?defined ?m)) k = None)"
    proof (cases v)
      case None
      with b dm have "k \<notin> fst ` set (filter (\<lambda>(k, v). v \<noteq> None) ?m)"
        by (intro filter_drops_key [where v = None]) simp_all
      then have "map_of (filter (\<lambda>(k, v). v \<noteq> None) ?m) k = None"
        by (rule map_of_absent)
      with None show ?thesis by (simp only: lifted_defined_entries) simp
    next
      case (Some m)
      with b have "map_of (filter (\<lambda>(k, v). v \<noteq> None) ?m) k = Some v"
        by (intro filter_keeps_binding) simp_all
      then show ?thesis by (simp only: lifted_defined_entries) simp
    qed
  qed
  have "?defined (fold (\<lambda>(k, v) acc. AList.update k v acc) new (?lift (?defined ?m)))
        = ?defined (?lift (?defined ?m))"
    using assms(2) inv by (intro fold_update_absorbed) (simp_all add: keys_def)
  then show ?thesis
    by (simp add: mergeMessages_def spread_def defined_entries_lifted)
qed

text \<open>
  Claim C5. For well-formed mappings (no timestamp twice), after \<open>updateMessages\<close> with a
  mapping that binds a timestamp to \<open>undefined\<close> the stored mapping of the channel has no
  entry for that timestamp, and the same merge applied again leaves the message store
  as the first merge left it.
\<close>

theorem updateMessages_deletes_and_is_idempotent:
  assumes "distinct (keys (channelMessages st channelId))"
    and "distinct (keys newMessages)"
    and "(ts, None) \<in> set newMessages"
  shows "\<not> has_key ts (channelMessages (snd (updateMessages st channelId newMessages)) channelId) \<and>
         messages (snd (updateMessages (snd (updateMessages st channelId newMessages))
                          channelId newMessages))
           = messages (snd (updateMessages st channelId newMessages))"
proof
  show "\<not> has_key ts (channelMessages (snd (updateMessages st channelId newMessages)) channelId)"
    using assms by (simp add: channelMessages_updateMessages mergeMessages_deleted)
next
  let ?st1 = "snd (updateMessages st channelId newMessages)"
  have "messages (snd (updateMessages ?st1 channelId newMessages))
        = AList.update channelId
            (mergeMessages (mergeMessages (channelMessages st channelId) newMessages) newMessages)
            (messages ?st1)"
    by (simp add: updateMessages_messages [of ?st1] channelMessages_updateMessages)
  also have "\<dots> = AList.update channelId
            (mergeMessages (channelMessages st channelId) newMessages) (messages ?st1)"
    using assms(1,2) by (simp add: mergeMessages_idempotent)
  also have "\<dots> = messages ?st1"
    by (simp add: updateMessages_messages [of st])
  finally show "messages (snd (updateMessages ?st1 channelId newMessages)) = messages ?st1" .
qed

theorem updateMessages_deletes_and_is_idempotent_witness:
  "distinct (keys (channelMessages scenarioStore ''C1'')) \<and>
   distinct (keys [(''100'', None), (''102'', Some (scenarioMessage\<lparr>timestamp := Some ''102''\<rparr>))]) \<and>
   messages (snd (updateMessages scenarioStore ''C1''
       [(''100'', None), (''102'', Some (scenarioMessage\<lparr>timestamp := Some ''102''\<rparr>))]))
     = [(''C1'', [(''102'', scenarioMessage\<lparr>timestamp := Some ''102''\<rparr>)])] \<and>
   \<not> has_key ''100'' (channelMessages (snd (updateMessages scenarioStore ''C1''
       [(''100'', None), (''102'', Some (scenarioMessage\<lparr>timestamp := Some ''102''\<rparr>))])) ''C1'') \<and>
   messages (snd (updateMessages (snd (updateMessages scenarioStore ''C1''
       [(''100'', None), (''102'', Some (scenarioMessage\<lparr>timestamp := Some ''102''\<rparr>))])) ''C1''
       [(''100'', None), (''102'', Some (scenarioMessage\<lparr>timestamp := Some ''102''\<rparr>))]))
     = [(''C1'', [(''102'', scenarioMessage\<lparr>timestamp := Some ''102''\<rparr>)])]"
proof -
  let ?new = "[(''100'', None), (''102'', Some (scenarioMessage\<lparr>timestamp := Some ''102''\<rparr>))]"
  have a: "distinct (keys (channelMessages scenarioStore ''C1''))"
    by (simp add: scenarioStore_def channelMessages_def keys_def)
  have b: "distinct (keys ?new)"
    by (simp add: keys_def)
  have c: "(''100'', None) \<in> set ?new"
    by simp
  have one: "messages (snd (updateMessages scenarioStore ''C1'' ?new))
      = [(''C1'', [(''102'', scenarioMessage\<lparr>timestamp := Some ''102''\<rparr>)])]"
    by (simp add: updateMessages_messages mergeMessages_def spread_def channelMessages_def
        scenarioStore_def List.map_filter_simps)
  from updateMessages_deletes_and_is_idempotent [OF a b c] a b one show ?thesis
    by simp
qed

subsection \<open>Adding and removing a reaction\<close>















end
